theory Spec2Isabelle
  imports Main
begin

section \<open>Strings\<close>

text \<open>
  A Go string is a sequence of bytes; it is modelled as a \<open>string\<close> (a list of
  \<open>char\<close>, one per byte). The functions of package \<open>strings\<close> that the server calls
  are written out below with Go's names.
\<close>

definition HasPrefix :: "string \<Rightarrow> string \<Rightarrow> bool" where
  \<comment> \<open>\<open>len(s) >= len(prefix) && s[:len(prefix)] == prefix\<close>\<close>
  "HasPrefix s pre = (length pre \<le> length s \<and> take (length pre) s = pre)"

definition HasSuffix :: "string \<Rightarrow> string \<Rightarrow> bool" where
  "HasSuffix s suf = (length suf \<le> length s \<and> drop (length s - length suf) s = suf)"

definition TrimPrefix :: "string \<Rightarrow> string \<Rightarrow> string" where
  \<comment> \<open>the string is returned unchanged when it does not start with the prefix\<close>
  "TrimPrefix s pre = (if HasPrefix s pre then drop (length pre) s else s)"

fun Contains :: "string \<Rightarrow> string \<Rightarrow> bool" where
  "Contains [] sub = (sub = [])"
| "Contains (c # cs) sub = (HasPrefix (c # cs) sub \<or> Contains cs sub)"

fun Split :: "string \<Rightarrow> char \<Rightarrow> string list" where
  \<comment> \<open>\<open>strings.Split\<close> for a separator of one byte: the pieces between the separators,
      a string without separator being its only piece\<close>
  "Split [] sep = [[]]"
| "Split (c # cs) sep =
     (if c = sep then [] # Split cs sep
      else (case Split cs sep of
              x # xs \<Rightarrow> (c # x) # xs
            | [] \<Rightarrow> [[c]]))"

fun JoinStrings :: "string list \<Rightarrow> string \<Rightarrow> string" where
  \<comment> \<open>\<open>strings.Join\<close>\<close>
  "JoinStrings [] sep = []"
| "JoinStrings [x] sep = x"
| "JoinStrings (x # y # ys) sep = x @ sep @ JoinStrings (y # ys) sep"

definition lowerByte :: "char \<Rightarrow> char" where
  "lowerByte c =
     (case map_of (zip ''ABCDEFGHIJKLMNOPQRSTUVWXYZ'' ''abcdefghijklmnopqrstuvwxyz'') c of
        Some l \<Rightarrow> l
      | None \<Rightarrow> c)"

definition ToLower :: "string \<Rightarrow> string" where
  \<comment> \<open>\<open>strings.ToLower\<close> on ASCII text: the letters A to Z are mapped to a to z, every
      other byte is kept\<close>
  "ToLower s = map lowerByte s"

section \<open>Lexical path functions of \<open>path/filepath\<close> (Unix)\<close>

text \<open>
  These functions belong to Go's standard library, not to the server; they are written
  here after the library's documented rules for a system whose separator is \<open>/\<close>.
  \<open>filepath.Clean\<close> works on the elements between the separators. Empty elements and
  \<open>.\<close> are dropped; \<open>..\<close> removes the element written before it when there is one that
  is not itself \<open>..\<close>, is dropped at the top of a rooted path, and is kept at the
  front of a relative one. The output elements are held in reverse, last written first.
\<close>

definition cleanStep :: "bool \<Rightarrow> string list \<Rightarrow> string \<Rightarrow> string list" where
  "cleanStep rooted out el =
     (if el = [] \<or> el = ''.'' then out
      else if el = ''..'' then
        (if out \<noteq> [] \<and> hd out \<noteq> ''..'' then tl out
         else if \<not> rooted then ''..'' # out
         else out)
      else el # out)"

definition Clean :: "string \<Rightarrow> string" where
  "Clean path =
     (if path = [] then ''.''
      else
        let rooted = (hd path = CHR ''/'');
            out = foldl (cleanStep rooted) [] (Split path (CHR ''/''));
            body = JoinStrings (rev out) ''/''
        in if rooted then ''/'' @ body
           else if body = [] then ''.''
           else body)"

fun Join :: "string list \<Rightarrow> string" where
  \<comment> \<open>\<open>filepath.Join\<close>: leading empty elements are ignored, the rest is joined with the
      separator and cleaned; with nothing but empty elements the result is empty\<close>
  "Join [] = []"
| "Join (e # es) = (if e = [] then Join es else Clean (JoinStrings (e # es) ''/''))"

definition IsAbs :: "string \<Rightarrow> bool" where
  "IsAbs path = HasPrefix path ''/''"

section \<open>Errors, configuration and the operating system\<close>

datatype error =
    InvalidPath            \<comment> \<open>\<open>errors.New("invalid path")\<close>\<close>
  | ZipPathMissing         \<comment> \<open>\<open>panic("zip path doesnt exist")\<close>\<close>
  | SymlinkInZip           \<comment> \<open>\<open>errors.New("symlink not allowed in zip downloads")\<close>\<close>
  | IndexOutOfRange        \<comment> \<open>the runtime panic of \<open>rpc.Args[i]\<close>\<close>
  | OSError string         \<comment> \<open>an error returned by a call into the operating system\<close>

record config =
  initPath :: string
  extraPath :: string
  symlinks :: bool
  skipHidden :: bool

text \<open>
  A file system object as \<open>filepath.Walk\<close> sees it through \<open>Lstat\<close>: a regular file with
  its bytes, a symbolic link (never followed), a directory with its entries in the order
  \<open>readDirNames\<close> returns them, or an entry whose \<open>Lstat\<close> or directory read fails.
\<close>

datatype fsnode =
    File string
  | Symlink
  | Dir "(string \<times> fsnode) list"
  | Broken error

text \<open>
  The calls that change the file system. The handlers below return the list of the calls
  they made, in order, so that "no rename was attempted" is a statement about that list.
\<close>

datatype fsop =
    MkdirAll string
  | Rename string string
  | RemoveAll string

text \<open>
  What the server asks of the operating system: the working directory, symlink resolution
  (a string and an error, as \<open>filepath.EvalSymlinks\<close> returns them), the object found
  at a path, and whether a mutation fails.
\<close>

record os_env =
  Getwd :: "error + string"
  EvalSymlinks :: "string \<Rightarrow> string \<times> error option"
  Lstat :: "string \<Rightarrow> error + fsnode"
  Exec :: "fsop \<Rightarrow> error option"

definition Abs :: "os_env \<Rightarrow> string \<Rightarrow> string \<times> error option" where
  "Abs env path =
     (if IsAbs path then (Clean path, None)
      else (case Getwd env of
              Inl e \<Rightarrow> ([], Some e)
            | Inr wd \<Rightarrow> (Join [wd, path], None)))"

section \<open>enforcePath\<close>

definition enforcePath :: "config \<Rightarrow> os_env \<Rightarrow> string \<Rightarrow> error + string" where
  "enforcePath cfg env p =
     (let joined = Join [initPath cfg, TrimPrefix p (extraPath cfg)];
          (fp, err) = Abs env joined;
          (sl, _) = EvalSymlinks env fp
      in if err \<noteq> None \<or> \<not> HasPrefix fp (initPath cfg)
            \<or> skipHidden cfg \<and> Contains p ''/.''
            \<or> \<not> symlinks cfg \<and> length sl > 0 \<and> \<not> HasPrefix sl (initPath cfg)
         then Inl InvalidPath
         else Inr fp)"

section \<open>zipRPC\<close>

datatype compression = Store | Deflate

record zipEntry =
  entName :: string
  entMethod :: compression
  entData :: string

text \<open>
  \<open>filepath.Walk\<close> hands the callback the path it built by joining the names of the
  entries onto the walk's root, and the callback asks \<open>filepath.Rel\<close> for that path
  relative to the root. The model keeps the names below the root as a list; \<open>Rel\<close> of
  the root itself is \<open>.\<close>, of any other entry its names joined by the separator.
\<close>

definition Rel :: "string list \<Rightarrow> string" where
  "Rel names = (if names = [] then ''.'' else JoinStrings names ''/'')"

definition Separator :: char where
  "Separator = CHR ''/''"

definition ToSlash :: "string \<Rightarrow> string" where
  "ToSlash path =
     (if Separator = CHR ''/'' then path
      else map (\<lambda>c. if c = Separator then CHR ''/'' else c) path)"

text \<open>
  The callback of the walk, in the order of its tests: the error handed over by the walk,
  a directory, a hidden relative path, a symlink, and at last a regular file, which is
  written. It returns the entries written to the archive so far and the value of the
  panic, if it panicked. Opening and copying a regular file is taken to succeed.
\<close>

fun zipFn ::
  "config \<Rightarrow> string list \<Rightarrow> fsnode \<Rightarrow> zipEntry list \<Rightarrow> zipEntry list \<times> error option" where
  "zipFn cfg names (Broken e) w = (w, Some e)"
| "zipFn cfg names (Dir cs) w = (w, None)"
| "zipFn cfg names Symlink w =
     (if skipHidden cfg \<and> HasPrefix (Rel names) ''.'' then (w, None)
      else (w, Some SymlinkInZip))"
| "zipFn cfg names (File d) w =
     (if skipHidden cfg \<and> HasPrefix (Rel names) ''.'' then (w, None)
      else (w @ [\<lparr>entName = ToSlash (Rel names), entMethod = Store, entData = d\<rparr>], None))"

text \<open>
  \<open>filepath.Walk\<close>: the callback is called on the entry, then, for a directory, on its
  children in order; the first error ends the walk. The callback above never returns
  \<open>SkipDir\<close>, so that case of the library is left out.
\<close>

fun walk ::
  "(string list \<Rightarrow> fsnode \<Rightarrow> 'w \<Rightarrow> 'w \<times> error option) \<Rightarrow> string list \<Rightarrow> fsnode \<Rightarrow> 'w
     \<Rightarrow> 'w \<times> error option"
and walkNames ::
  "(string list \<Rightarrow> fsnode \<Rightarrow> 'w \<Rightarrow> 'w \<times> error option) \<Rightarrow> string list
     \<Rightarrow> (string \<times> fsnode) list \<Rightarrow> 'w \<Rightarrow> 'w \<times> error option"
where
  "walk fn path (Dir cs) w =
     (case fn path (Dir cs) w of
        (w', Some e) \<Rightarrow> (w', Some e)
      | (w', None) \<Rightarrow> walkNames fn path cs w')"
| "walk fn path (File d) w = fn path (File d) w"
| "walk fn path Symlink w = fn path Symlink w"
| "walk fn path (Broken e) w = fn path (Broken e) w"
| "walkNames fn path [] w = (w, None)"
| "walkNames fn path ((name, f) # cs) w =
     (case walk fn (path @ [name]) f w of
        (w', Some e) \<Rightarrow> (w', Some e)
      | (w', None) \<Rightarrow> walkNames fn path cs w')"

definition zipRPC :: "config \<Rightarrow> os_env \<Rightarrow> string \<Rightarrow> zipEntry list \<times> error option" where
  "zipRPC cfg env zipPath =
     (case enforcePath cfg env zipPath of
        Inl e \<Rightarrow> ([], Some e)
      | Inr zipFullPath \<Rightarrow>
          (case Lstat env zipFullPath of
             Inl e \<Rightarrow> ([], Some ZipPathMissing)
           | Inr f \<Rightarrow> walk (zipFn cfg) [] f []))"

section \<open>rpc\<close>

record rpcCall =
  Call :: string
  Args :: "string list"

definition index :: "string list \<Rightarrow> nat \<Rightarrow> error + string" where
  \<comment> \<open>\<open>rpc.Args[i]\<close>, which panics out of range\<close>
  "index xs i = (if i < length xs then Inr (xs ! i) else Inl IndexOutOfRange)"

text \<open>
  The handler from the decoded call on (a body that does not decode leaves the call at
  its zero value, with an empty name and no arguments). The result is the list of file
  system calls made and the value of the panic, if any: a rejected path, an argument out
  of range, or the error of the file system call handed to \<open>check\<close>.
\<close>

definition rpc :: "config \<Rightarrow> os_env \<Rightarrow> rpcCall \<Rightarrow> fsop list \<times> error option" where
  "rpc cfg env c =
     (if Call c = ''mkdirp'' then
        (case index (Args c) 0 of Inl e \<Rightarrow> ([], Some e) | Inr a0 \<Rightarrow>
         (case enforcePath cfg env a0 of Inl e \<Rightarrow> ([], Some e) | Inr p0 \<Rightarrow>
            ([MkdirAll p0], Exec env (MkdirAll p0))))
      else if Call c = ''mv'' then
        (case index (Args c) 0 of Inl e \<Rightarrow> ([], Some e) | Inr a0 \<Rightarrow>
         (case enforcePath cfg env a0 of Inl e \<Rightarrow> ([], Some e) | Inr p0 \<Rightarrow>
         (case index (Args c) 1 of Inl e \<Rightarrow> ([], Some e) | Inr a1 \<Rightarrow>
         (case enforcePath cfg env a1 of Inl e \<Rightarrow> ([], Some e) | Inr p1 \<Rightarrow>
            ([Rename p0 p1], Exec env (Rename p0 p1))))))
      else if Call c = ''rm'' then
        (case index (Args c) 0 of Inl e \<Rightarrow> ([], Some e) | Inr a0 \<Rightarrow>
         (case enforcePath cfg env a0 of Inl e \<Rightarrow> ([], Some e) | Inr p0 \<Rightarrow>
            ([RemoveAll p0], Exec env (RemoveAll p0))))
      else ([], None))"

definition exitPath :: "error option \<Rightarrow> nat \<times> string" where
  \<comment> \<open>the response: \<open>ok\<close> written by the handler, or status 500 and \<open>error\<close> after a panic\<close>
  "exitPath r = (case r of None \<Rightarrow> (200, ''ok'') | Some e \<Rightarrow> (500, ''error''))"

definition rpcReply :: "config \<Rightarrow> os_env \<Rightarrow> rpcCall \<Rightarrow> nat \<times> string" where
  "rpcReply cfg env c = exitPath (snd (rpc cfg env c))"

section \<open>replyList\<close>

record rowTemplate =
  Name :: string
  Href :: string
  Size :: string
  Ext :: string

record pageTemplate =
  RowsFiles :: "rowTemplate list"
  RowsFolders :: "rowTemplate list"

text \<open>
  An entry of the directory read: its name, whether its mode marks a symlink, and what
  \<open>os.Stat\<close> of the entry returns (an error, or whether it is a directory and its size).
\<close>

record fileInfo =
  fiName :: string
  fiSymlink :: bool
  fiStat :: "error + bool \<times> int"

text \<open>
  One round of the loop over the entries. \<open>humanize\<close> formats a size with floating point
  arithmetic and \<open>url.PathEscape\<close> is the library's; both are parameters. An escaped name
  that starts with a slash loses that slash (its first occurrence).
\<close>

definition addRow ::
  "(int \<Rightarrow> string) \<Rightarrow> (string \<Rightarrow> string) \<Rightarrow> config \<Rightarrow> pageTemplate \<Rightarrow> fileInfo \<Rightarrow> pageTemplate" where
  "addRow humanize PathEscape cfg p el =
     (if skipHidden cfg \<and> HasPrefix (fiName el) ''.'' then p
      else if \<not> symlinks cfg \<and> fiSymlink el then p
      else (case fiStat el of
              Inl e \<Rightarrow> p
            | Inr (isDir, sz) \<Rightarrow>
                let href0 = PathEscape (fiName el);
                    href = (if isDir \<and> HasPrefix href0 ''/'' then tl href0 else href0)
                in if isDir then
                     p\<lparr>RowsFolders := RowsFolders p @
                        [\<lparr>Name = fiName el @ ''/'', Href = href, Size = [], Ext = ''folder''\<rparr>]\<rparr>
                   else
                     let sl = Split (fiName el) (CHR ''.'');
                         ext = ToLower (last sl)
                     in p\<lparr>RowsFiles := RowsFiles p @
                        [\<lparr>Name = fiName el, Href = href, Size = humanize sz, Ext = ext\<rparr>]\<rparr>))"

text \<open>
  The rows of the page, from the entries as sorted by \<open>sort.Slice\<close>. The title and the
  other fields of the page, and its rendering, are not modelled.
\<close>

definition replyList ::
  "(int \<Rightarrow> string) \<Rightarrow> (string \<Rightarrow> string) \<Rightarrow> config \<Rightarrow> string \<Rightarrow> fileInfo list \<Rightarrow> pageTemplate" where
  "replyList humanize PathEscape cfg path files =
     (let path' = (if \<not> HasSuffix path ''/'' then path @ ''/'' else path);
          p = \<lparr>RowsFiles = [],
               RowsFolders =
                 (if path' \<noteq> extraPath cfg
                  then [\<lparr>Name = ''../'', Href = ''../'', Size = [], Ext = ''folder''\<rparr>]
                  else [])\<rparr>
      in foldl (addRow humanize PathEscape cfg) p files)"

section \<open>Notions the properties are stated with\<close>

definition pathElems :: "string \<Rightarrow> string list" where
  "pathElems p = filter (\<lambda>el. el \<noteq> []) (Split p (CHR ''/''))"

definition insideRoot :: "string \<Rightarrow> string \<Rightarrow> bool" where
  \<comment> \<open>the path is the root directory or lies below it: its elements start with the root's\<close>
  "insideRoot root p = (take (length (pathElems root)) (pathElems p) = pathElems root)"

definition hiddenSegment :: "string \<Rightarrow> bool" where
  \<comment> \<open>some segment of the path starts with a dot\<close>
  "hiddenSegment p = list_ex (\<lambda>el. HasPrefix el ''.'') (Split p (CHR ''/''))"

text \<open>
  The calls of the callback that a walk makes when no call fails, in order.
\<close>

fun visits :: "string list \<Rightarrow> fsnode \<Rightarrow> (string list \<times> fsnode) list"
and visitsNames :: "string list \<Rightarrow> (string \<times> fsnode) list \<Rightarrow> (string list \<times> fsnode) list"
where
  "visits path (Dir cs) = (path, Dir cs) # visitsNames path cs"
| "visits path (File d) = [(path, File d)]"
| "visits path Symlink = [(path, Symlink)]"
| "visits path (Broken e) = [(path, Broken e)]"
| "visitsNames path [] = []"
| "visitsNames path ((name, f) # cs) = visits (path @ [name]) f @ visitsNames path cs"

fun callAll ::
  "(string list \<Rightarrow> fsnode \<Rightarrow> 'w \<Rightarrow> 'w \<times> error option) \<Rightarrow> (string list \<times> fsnode) list \<Rightarrow> 'w
     \<Rightarrow> 'w \<times> error option" where
  "callAll fn [] w = (w, None)"
| "callAll fn ((path, f) # vs) w =
     (case fn path f w of
        (w', Some e) \<Rightarrow> (w', Some e)
      | (w', None) \<Rightarrow> callAll fn vs w')"

section \<open>A served directory\<close>

text \<open>
  The server started on \<open>/srv/data\<close> with the flags at their defaults, and a file system
  without symbolic links, where every path resolves to itself.
\<close>

definition srvData :: config where
  "srvData = \<lparr>initPath = ''/srv/data'', extraPath = ''/'', symlinks = False, skipHidden = True\<rparr>"

definition plainFS :: os_env where
  "plainFS = \<lparr>Getwd = Inr ''/'', EvalSymlinks = (\<lambda>p. (p, None)),
               Lstat = (\<lambda>p. Inl (OSError ''no such file or directory'')),
               Exec = (\<lambda>op. None)\<rparr>"

text \<open>
  The same with two symbolic links in the root, \<open>link\<close> and \<open>.link\<close>, that point to
  \<open>/etc\<close>.
\<close>

definition linkFS :: os_env where
  "linkFS = plainFS\<lparr>EvalSymlinks :=
     (\<lambda>p. if p = ''/srv/data/link'' \<or> p = ''/srv/data/.link'' then (''/etc'', None)
          else (p, None))\<rparr>"

text \<open>
  The same with three directories under the root: \<open>docs\<close> holds a hidden file, a file
  and a subdirectory with a hidden file; \<open>links\<close> holds a symbolic link between two
  files; \<open>dotlinks\<close> holds a hidden symbolic link and a file.
\<close>

definition docsTree :: fsnode where
  "docsTree = Dir [(''.env'', File ''k=v''), (''a.txt'', File ''hello''),
                   (''sub'', Dir [(''.secret'', File ''key'')])]"

definition linkTree :: fsnode where
  "linkTree = Dir [(''a.txt'', File ''hello''), (''link'', Symlink), (''z.txt'', File ''bye'')]"

definition dotLinkTree :: fsnode where
  "dotLinkTree = Dir [(''.link'', Symlink), (''a.txt'', File ''hello'')]"

definition treeFS :: os_env where
  "treeFS = plainFS\<lparr>Lstat :=
     (\<lambda>p. if p = ''/srv/data/docs'' then Inr docsTree
          else if p = ''/srv/data/links'' then Inr linkTree
          else if p = ''/srv/data/dotlinks'' then Inr dotLinkTree
          else Inl (OSError ''no such file or directory''))\<rparr>"

text \<open>
  A directory read, already sorted, and stand-ins for the two presentation functions.
\<close>

definition listing :: "fileInfo list" where
  "listing =
     [\<lparr>fiName = ''backup.TAR.GZ'', fiSymlink = False, fiStat = Inr (False, 2048)\<rparr>,
      \<lparr>fiName = ''Makefile'', fiSymlink = False, fiStat = Inr (False, 120)\<rparr>,
      \<lparr>fiName = ''photos'', fiSymlink = False, fiStat = Inr (True, 4096)\<rparr>]"

definition noSize :: "int \<Rightarrow> string" where
  "noSize n = []"

definition noEscape :: "string \<Rightarrow> string" where
  "noEscape s = s"

section \<open>Facts about enforcePath\<close>

lemmas fixture_defs = srvData_def plainFS_def linkFS_def treeFS_def

lemmas path_defs =
  enforcePath_def Abs_def IsAbs_def HasPrefix_def TrimPrefix_def Clean_def cleanStep_def

lemma enforcePath_unfold:
  assumes "Abs env (Join [initPath cfg, TrimPrefix p (extraPath cfg)]) = (fp, err)"
  shows "enforcePath cfg env p =
     (if err \<noteq> None \<or> \<not> HasPrefix fp (initPath cfg)
         \<or> skipHidden cfg \<and> Contains p ''/.''
         \<or> \<not> symlinks cfg \<and> fst (EvalSymlinks env fp) \<noteq> []
              \<and> \<not> HasPrefix (fst (EvalSymlinks env fp)) (initPath cfg)
      then Inl InvalidPath else Inr fp)"
  using assms by (simp add: enforcePath_def Let_def case_prod_beta)

text \<open>
  The only error of \<open>enforcePath\<close> is the uniform one, and a path it returns starts with
  the root as a string.
\<close>

lemma enforcePath_rejection_uniform:
  "enforcePath cfg env p = Inl e \<Longrightarrow> e = InvalidPath"
  by (auto simp: enforcePath_def Let_def split: prod.splits if_splits)

lemma enforcePath_accepted_prefix:
  "enforcePath cfg env p = Inr fp \<Longrightarrow> HasPrefix fp (initPath cfg)"
  by (auto simp: enforcePath_def Let_def split: prod.splits if_splits)

lemma enforcePath_rejects_slash_dot:
  "skipHidden cfg \<Longrightarrow> Contains p ''/.'' \<Longrightarrow> enforcePath cfg env p = Inl InvalidPath"
  by (simp add: enforcePath_def Let_def split: prod.splits)

text \<open>
  A hidden segment is the first one, or it follows a slash. With \<open>skipHidden\<close>, a raw
  path with a hidden segment is rejected unless the path itself starts with a dot.
\<close>

lemma Split_not_Nil: "Split s sep \<noteq> []"
  by (induction s) (auto split: list.splits)

lemma HasPrefix_dot: "HasPrefix s ''.'' \<longleftrightarrow> (\<exists>t. s = CHR ''.'' # t)"
  by (cases s) (auto simp: HasPrefix_def)

lemma hd_Split_dot: "HasPrefix (hd (Split p (CHR ''/''))) ''.'' \<longleftrightarrow> HasPrefix p ''.''"
  by (cases p) (auto simp: HasPrefix_dot split: list.splits)

lemma Contains_Cons: "Contains cs sub \<Longrightarrow> Contains (c # cs) sub"
  by simp

lemma tl_Split_dot:
  "el \<in> set (tl (Split p (CHR ''/''))) \<Longrightarrow> HasPrefix el ''.'' \<Longrightarrow> Contains p ''/.''"
proof (induction p)
  case Nil
  then show ?case by simp
next
  case (Cons c cs)
  show ?case
  proof (cases "c = CHR ''/''")
    case True
    with Cons.prems have el: "el \<in> set (Split cs (CHR ''/''))" by simp
    show ?thesis
    proof (cases "el = hd (Split cs (CHR ''/''))")
      case True
      with Cons.prems(2) have "HasPrefix cs ''.''" by (simp add: hd_Split_dot)
      with \<open>c = CHR ''/''\<close> show ?thesis by (auto simp: HasPrefix_dot HasPrefix_def)
    next
      case False
      with el have "el \<in> set (tl (Split cs (CHR ''/'')))"
        using Split_not_Nil [of cs "CHR ''/''"] by (cases "Split cs (CHR ''/'')") auto
      then show ?thesis using Cons.IH Cons.prems(2) by simp
    qed
  next
    case False
    with Cons.prems have "el \<in> set (tl (Split cs (CHR ''/'')))"
      by (auto split: list.splits)
    then show ?thesis using Cons.IH Cons.prems(2) by simp
  qed
qed

lemma hiddenSegment_cases:
  assumes "hiddenSegment p"
  shows "HasPrefix p ''.'' \<or> Contains p ''/.''"
proof -
  from assms obtain el where el: "el \<in> set (Split p (CHR ''/''))" "HasPrefix el ''.''"
    by (auto simp: hiddenSegment_def list_ex_iff)
  show ?thesis
  proof (cases "el = hd (Split p (CHR ''/''))")
    case True
    with el(2) show ?thesis by (simp add: hd_Split_dot)
  next
    case False
    with el(1) have "el \<in> set (tl (Split p (CHR ''/'')))"
      using Split_not_Nil [of p "CHR ''/''"] by (cases "Split p (CHR ''/'')") auto
    with el(2) show ?thesis by (simp add: tl_Split_dot)
  qed
qed

lemma enforcePath_rejects_hidden_after_slash:
  assumes "skipHidden cfg" and "hiddenSegment p" and "\<not> HasPrefix p ''.''"
  shows "enforcePath cfg env p = Inl InvalidPath"
  using assms hiddenSegment_cases [of p] by (simp add: enforcePath_rejects_slash_dot)

section \<open>C1: accepted paths and the root\<close>

text \<open>
  C1. Every raw path is rejected or resolved to a path that starts with the root as a
  string, and no accepted path lies outside the root. The first half holds
  (\<open>enforcePath_accepted_prefix\<close>); the second does not, since a string that starts with
  \<open>/srv/data\<close> may name a sibling directory of the root. With the flags at their
  defaults the raw path \<open>../data2/secret\<close> is accepted and resolved to
  \<open>/srv/data2/secret\<close>, and so is \<open>/../data2/secret\<close> when hidden files are served.
\<close>

theorem enforcePath_sibling_escape:
  "enforcePath srvData plainFS ''../data2/secret'' = Inr ''/srv/data2/secret''
   \<and> enforcePath (srvData\<lparr>skipHidden := False\<rparr>) plainFS ''/../data2/secret''
       = Inr ''/srv/data2/secret''"
  by (simp add: fixture_defs path_defs)

text \<open>
  C1, the same input: the accepted path has the root as a string prefix and is not
  inside the root directory.
\<close>

theorem enforcePath_sibling_escape_outside:
  "\<exists>fp. enforcePath srvData plainFS ''../data2/secret'' = Inr fp
        \<and> HasPrefix fp (initPath srvData) \<and> \<not> insideRoot (initPath srvData) fp"
  using enforcePath_sibling_escape
  by (simp add: srvData_def HasPrefix_def insideRoot_def pathElems_def)

section \<open>C2: hidden segments\<close>

text \<open>
  C2. With \<open>skipHidden\<close>, every raw path with a segment that begins with a dot is
  rejected. The test is for the two bytes \<open>/.\<close> in the raw string, so a hidden
  segment after a slash is caught (\<open>enforcePath_rejects_hidden_after_slash\<close>) and a
  hidden first segment with no slash before it passes: \<open>.git/config\<close> is accepted.
\<close>

theorem enforcePath_hidden_first_segment:
  "enforcePath srvData plainFS ''.git/config'' = Inr ''/srv/data/.git/config''"
  by (simp add: fixture_defs path_defs)

text \<open>
  C2, the same input: \<open>skipHidden\<close> is set, the raw path has a hidden segment, and the
  path is accepted.
\<close>

theorem enforcePath_hidden_first_segment_hidden:
  "skipHidden srvData \<and> hiddenSegment ''.git/config''
     \<and> (\<exists>fp. enforcePath srvData plainFS ''.git/config'' = Inr fp)"
  using enforcePath_hidden_first_segment
  by (simp add: srvData_def hiddenSegment_def HasPrefix_def)

section \<open>C4: the traversal scenario\<close>

lemma scenario_fp:
  assumes "initPath cfg = ''/srv/data''" and "extraPath cfg = ''/''"
  shows "Abs env (Join [initPath cfg, TrimPrefix ''/srv/data/../../etc/passwd'' (extraPath cfg)])
           = (''/srv/data/etc/passwd'', None)"
  using assms by (simp add: Abs_def IsAbs_def HasPrefix_def TrimPrefix_def Clean_def cleanStep_def)

lemma scenario_raw: "Contains ''/srv/data/../../etc/passwd'' ''/.''"
  by (simp add: HasPrefix_def)

text \<open>
  C4 as stated fails when \<open>skipHidden\<close> is off: the raw path
  \<open>/srv/data/../../etc/passwd\<close> loses the route prefix \<open>/\<close>, is joined onto the root
  and cleans to \<open>/srv/data/etc/passwd\<close>, a path under the root, which is returned.
\<close>

theorem enforcePath_scenario_accepted:
  "enforcePath (srvData\<lparr>skipHidden := False\<rparr>) plainFS ''/srv/data/../../etc/passwd''
     = Inr ''/srv/data/etc/passwd''"
  by (simp add: fixture_defs path_defs)

text \<open>
  C4, amended. With root \<open>/srv/data\<close> and route prefix \<open>/\<close>, the raw path
  \<open>/srv/data/../../etc/passwd\<close> is rejected when \<open>skipHidden\<close> is set (the raw string
  holds \<open>/.\<close>). When it is not set, the path resolves to \<open>/srv/data/etc/passwd\<close> and is
  returned, provided the symlink check passes (symlinks are followed, or the resolved
  form is empty or starts with the root).
\<close>

theorem enforcePath_scenario:
  assumes "initPath cfg = ''/srv/data''" and "extraPath cfg = ''/''"
  shows "(skipHidden cfg \<longrightarrow>
            enforcePath cfg env ''/srv/data/../../etc/passwd'' = Inl InvalidPath)
       \<and> (\<not> skipHidden cfg \<and>
            (symlinks cfg \<or> fst (EvalSymlinks env ''/srv/data/etc/passwd'') = []
               \<or> HasPrefix (fst (EvalSymlinks env ''/srv/data/etc/passwd'')) (initPath cfg)) \<longrightarrow>
            enforcePath cfg env ''/srv/data/../../etc/passwd'' = Inr ''/srv/data/etc/passwd'')"
proof -
  have root: "HasPrefix ''/srv/data/etc/passwd'' (initPath cfg)"
    using assms by (simp add: HasPrefix_def)
  show ?thesis
    using root scenario_raw by (simp add: enforcePath_unfold [OF scenario_fp [OF assms]])
qed

text \<open>
  C4, amended, at the default flags and with \<open>skipHidden\<close> off and symlinks followed.
\<close>

theorem enforcePath_scenario_witness:
  "enforcePath srvData plainFS ''/srv/data/../../etc/passwd'' = Inl InvalidPath
   \<and> enforcePath (srvData\<lparr>skipHidden := False, symlinks := True\<rparr>) linkFS
        ''/srv/data/../../etc/passwd'' = Inr ''/srv/data/etc/passwd''"
  using enforcePath_scenario [of srvData plainFS]
    enforcePath_scenario [of "srvData\<lparr>skipHidden := False, symlinks := True\<rparr>" linkFS]
  by (simp add: srvData_def)

section \<open>C8: a raw path without the route prefix\<close>

text \<open>
  C8 as stated fails: with the route prefix \<open>/gossa/\<close>, the raw path \<open>/docs/a.txt\<close>
  does not start with the prefix and is accepted.
\<close>

theorem enforcePath_prefix_absent_accepted:
  "\<not> HasPrefix ''/docs/a.txt'' (extraPath (srvData\<lparr>extraPath := ''/gossa/''\<rparr>))
   \<and> enforcePath (srvData\<lparr>extraPath := ''/gossa/''\<rparr>) plainFS ''/docs/a.txt''
       = Inr ''/srv/data/docs/a.txt''"
  by (simp add: fixture_defs path_defs)

text \<open>
  C8, amended. A raw path that does not start with the route prefix is left whole and
  resolved against the root, by the same checks and with the same result as if no route
  prefix were configured.
\<close>

theorem enforcePath_prefix_absent:
  assumes "\<not> HasPrefix p (extraPath cfg)"
  shows "enforcePath cfg env p = enforcePath (cfg\<lparr>extraPath := []\<rparr>) env p"
  using assms by (simp add: enforcePath_def TrimPrefix_def HasPrefix_def [of p "[]"])

text \<open>
  C8, amended, at the route prefix \<open>/gossa/\<close> and the raw path \<open>/docs/a.txt\<close>.
\<close>

theorem enforcePath_prefix_absent_witness:
  "enforcePath (srvData\<lparr>extraPath := ''/gossa/''\<rparr>) plainFS ''/docs/a.txt''
     = enforcePath (srvData\<lparr>extraPath := ''/gossa/'', extraPath := []\<rparr>) plainFS ''/docs/a.txt''
   \<and> enforcePath (srvData\<lparr>extraPath := ''/gossa/''\<rparr>) plainFS ''/docs/a.txt''
     = Inr ''/srv/data/docs/a.txt''"
  using enforcePath_prefix_absent [of "''/docs/a.txt''" "srvData\<lparr>extraPath := ''/gossa/''\<rparr>" plainFS]
  by (simp add: fixture_defs path_defs)

section \<open>C6 and C7: rpc\<close>

text \<open>
  C6 as stated fails: a call named \<open>chmod\<close> touches nothing and is answered \<open>ok\<close>.
\<close>

theorem rpc_unknown_call_ok:
  "rpc srvData plainFS \<lparr>Call = ''chmod'', Args = [''/a.txt'']\<rparr> = ([], None)
   \<and> rpcReply srvData plainFS \<lparr>Call = ''chmod'', Args = [''/a.txt'']\<rparr> = (200, ''ok'')"
  by (simp add: rpc_def rpcReply_def exitPath_def)

text \<open>
  C6, amended. A request whose call is none of \<open>mkdirp\<close>, \<open>mv\<close>, \<open>rm\<close> makes no file
  system call, does not panic, and is answered \<open>ok\<close>.
\<close>

theorem rpc_unknown_call:
  assumes "Call c \<noteq> ''mkdirp''" and "Call c \<noteq> ''mv''" and "Call c \<noteq> ''rm''"
  shows "rpc cfg env c = ([], None) \<and> rpcReply cfg env c = (200, ''ok'')"
  using assms by (simp add: rpc_def rpcReply_def exitPath_def)

text \<open>
  C6, amended, at the call a body that does not decode leaves behind.
\<close>

theorem rpc_unknown_call_witness:
  "rpc srvData plainFS \<lparr>Call = [], Args = []\<rparr> = ([], None)
   \<and> rpcReply srvData plainFS \<lparr>Call = [], Args = []\<rparr> = (200, ''ok'')"
  using rpc_unknown_call [of "\<lparr>Call = [], Args = []\<rparr>" srvData plainFS]
  by simp

text \<open>
  For \<open>mv\<close>, both arguments go through \<open>enforcePath\<close> before the rename: when either is
  rejected no file system call is made and the request fails; when both are accepted
  the rename is called on the two returned paths.
\<close>

lemma rpc_mv_rejected:
  assumes "Call c = ''mv''" and "Args c = [a, b]"
    and "enforcePath cfg env a = Inl e \<or> enforcePath cfg env b = Inl e"
  shows "fst (rpc cfg env c) = [] \<and> snd (rpc cfg env c) \<noteq> None"
  using assms by (auto simp: rpc_def index_def split: sum.splits)

lemma rpc_mv_accepted:
  assumes "Call c = ''mv''" and "Args c = [a, b]"
    and "enforcePath cfg env a = Inr p0" and "enforcePath cfg env b = Inr p1"
  shows "rpc cfg env c = ([Rename p0 p1], Exec env (Rename p0 p1))"
  using assms by (auto simp: rpc_def index_def split: sum.splits)

text \<open>
  C7. A move whose destination resolves outside the root is rejected before any rename.
  The order holds (\<open>rpc_mv_rejected\<close>), but the destination \<open>../data2/a.txt\<close> resolves to
  \<open>/srv/data2/a.txt\<close>, outside the root \<open>/srv/data\<close>, is accepted by \<open>enforcePath\<close>, and
  the rename is made.
\<close>

theorem rpc_mv_sibling_escape:
  "rpc srvData plainFS \<lparr>Call = ''mv'', Args = [''/a.txt'', ''../data2/a.txt'']\<rparr>
     = ([Rename ''/srv/data/a.txt'' ''/srv/data2/a.txt''], None)"
  by (simp add: rpc_def index_def fixture_defs path_defs)

text \<open>
  C7, the same request: a rename is made and its destination is not inside the root.
\<close>

theorem rpc_mv_sibling_escape_outside:
  "\<exists>src dst. fst (rpc srvData plainFS \<lparr>Call = ''mv'', Args = [''/a.txt'', ''../data2/a.txt'']\<rparr>)
       = [Rename src dst] \<and> \<not> insideRoot (initPath srvData) dst"
  using rpc_mv_sibling_escape
  by (simp add: srvData_def insideRoot_def pathElems_def)

section \<open>C3: symlinks that leave the root\<close>

text \<open>
  C3 as stated fails in its second half: with symlinks followed, the hidden link
  \<open>/.link\<close>, which resolves to \<open>/etc\<close>, is still rejected, by the test for hidden
  segments.
\<close>

theorem enforcePath_hidden_symlink_rejected:
  "fst (EvalSymlinks linkFS ''/srv/data/.link'') = ''/etc''
   \<and> \<not> HasPrefix ''/etc'' (initPath srvData)
   \<and> enforcePath (srvData\<lparr>symlinks := True\<rparr>) linkFS ''/.link'' = Inl InvalidPath"
  by (simp add: fixture_defs path_defs)

text \<open>
  C3, amended. Take a raw path whose resolved form is not empty and does not start with
  the root. With \<open>symlinks\<close> off it is rejected. With \<open>symlinks\<close> on the resolved form
  plays no part: the path is accepted exactly when the other tests pass, that is, the
  absolute path was computed, it starts with the root, and the raw path is not hidden
  under \<open>skipHidden\<close>.
\<close>

theorem enforcePath_symlink_policy:
  assumes "Abs env (Join [initPath cfg, TrimPrefix p (extraPath cfg)]) = (fp, err)"
    and "fst (EvalSymlinks env fp) \<noteq> []"
    and "\<not> HasPrefix (fst (EvalSymlinks env fp)) (initPath cfg)"
  shows "enforcePath (cfg\<lparr>symlinks := False\<rparr>) env p = Inl InvalidPath
       \<and> enforcePath (cfg\<lparr>symlinks := True\<rparr>) env p =
           (if err = None \<and> HasPrefix fp (initPath cfg) \<and> \<not> (skipHidden cfg \<and> Contains p ''/.'')
            then Inr fp else Inl InvalidPath)"
proof -
  have off: "Abs env (Join [initPath (cfg\<lparr>symlinks := False\<rparr>),
               TrimPrefix p (extraPath (cfg\<lparr>symlinks := False\<rparr>))]) = (fp, err)"
    using assms(1) by simp
  have on: "Abs env (Join [initPath (cfg\<lparr>symlinks := True\<rparr>),
               TrimPrefix p (extraPath (cfg\<lparr>symlinks := True\<rparr>))]) = (fp, err)"
    using assms(1) by simp
  show ?thesis
    using assms(2,3) by (simp add: enforcePath_unfold [OF off] enforcePath_unfold [OF on])
qed

lemma link_fp:
  "Abs linkFS (Join [initPath srvData, TrimPrefix ''/link'' (extraPath srvData)])
     = (''/srv/data/link'', None)"
  by (simp add: fixture_defs Abs_def IsAbs_def HasPrefix_def TrimPrefix_def Clean_def cleanStep_def)

text \<open>
  C3, amended, at the link \<open>/link\<close> of the root, which resolves to \<open>/etc\<close>: rejected
  with \<open>symlinks\<close> off, accepted with \<open>symlinks\<close> on.
\<close>

theorem enforcePath_symlink_policy_witness:
  "enforcePath (srvData\<lparr>symlinks := False\<rparr>) linkFS ''/link'' = Inl InvalidPath
   \<and> enforcePath (srvData\<lparr>symlinks := True\<rparr>) linkFS ''/link'' = Inr ''/srv/data/link''"
  using enforcePath_symlink_policy [OF link_fp]
  by (simp add: fixture_defs HasPrefix_def)

section \<open>C5 and C9: the zip walk\<close>

lemmas zip_defs =
  zipRPC_def Rel_def ToSlash_def Separator_def docsTree_def linkTree_def dotLinkTree_def

lemma callAll_append:
  "callAll fn (xs @ ys) w =
     (case callAll fn xs w of (w', Some e) \<Rightarrow> (w', Some e) | (w', None) \<Rightarrow> callAll fn ys w')"
  by (induction xs arbitrary: w) (auto split: prod.splits option.splits)

text \<open>
  A walk makes the calls of \<open>visits\<close> in order and stops at the first that fails.
\<close>

lemma walk_callAll:
  "walk fn path f w = callAll fn (visits path f) w"
  "walkNames fn path cs w = callAll fn (visitsNames path cs) w"
  by (induction fn path f w and fn path cs w rule: walk_walkNames.induct)
     (auto simp: callAll_append split: prod.splits option.splits)

lemma zipFn_symlink:
  "\<not> (skipHidden cfg \<and> HasPrefix (Rel names) ''.'') \<Longrightarrow>
     zipFn cfg names Symlink w = (w, Some SymlinkInZip)"
  by auto

text \<open>
  Every entry of the archive is stored uncompressed.
\<close>

lemma zipFn_store:
  "\<forall>e \<in> set w. entMethod e = Store \<Longrightarrow>
     \<forall>e \<in> set (fst (zipFn cfg names f w)). entMethod e = Store"
  by (cases f) auto

lemma callAll_zipFn_store:
  "\<forall>e \<in> set w. entMethod e = Store \<Longrightarrow>
     \<forall>e \<in> set (fst (callAll (zipFn cfg) vs w)). entMethod e = Store"
proof (induction vs arbitrary: w)
  case Nil
  then show ?case by simp
next
  case (Cons v vs)
  obtain names f where v: "v = (names, f)" by (cases v)
  obtain w' r where step: "zipFn cfg names f w = (w', r)" by (cases "zipFn cfg names f w")
  have w': "\<forall>e \<in> set w'. entMethod e = Store"
    using zipFn_store [OF Cons.prems, of cfg names f] step by simp
  show ?case
  proof (cases r)
    case None
    then show ?thesis using Cons.IH [OF w'] v step by simp
  next
    case (Some e)
    then show ?thesis using w' v step by simp
  qed
qed

lemma zipRPC_store:
  "\<forall>e \<in> set (fst (zipRPC cfg env zipPath)). entMethod e = Store"
proof (cases "enforcePath cfg env zipPath")
  case (Inl e)
  then show ?thesis by (simp add: zipRPC_def)
next
  case (Inr full)
  show ?thesis
  proof (cases "Lstat env full")
    case (Inl e)
    with Inr show ?thesis by (simp add: zipRPC_def)
  next
    case (Inr f)
    with \<open>enforcePath cfg env zipPath = Inr full\<close> show ?thesis
      using callAll_zipFn_store [of "[]" cfg "visits [] f"]
      by (simp add: zipRPC_def walk_callAll)
  qed
qed

text \<open>
  C5. The archive holds exactly the descendants that are neither hidden nor directories;
  with \<open>skipHidden\<close>, a descendant with a hidden segment at any depth is left out. The
  test is whether the relative path as a whole starts with a dot, so only a hidden first
  segment is caught: of \<open>docs\<close>, the hidden file \<open>.env\<close> is left out and the hidden file
  \<open>sub/.secret\<close> is archived.
\<close>

theorem zipRPC_nested_hidden:
  "zipRPC srvData treeFS ''/docs'' =
     ([\<lparr>entName = ''a.txt'', entMethod = Store, entData = ''hello''\<rparr>,
       \<lparr>entName = ''sub/.secret'', entMethod = Store, entData = ''key''\<rparr>], None)"
  by (simp add: zip_defs fixture_defs path_defs)

text \<open>
  C5, the same request: \<open>skipHidden\<close> is set and the archive has an entry with a hidden
  segment.
\<close>

theorem zipRPC_nested_hidden_archived:
  "skipHidden srvData
   \<and> list_ex (\<lambda>e. hiddenSegment (entName e)) (fst (zipRPC srvData treeFS ''/docs''))"
  using zipRPC_nested_hidden
  by (simp add: srvData_def hiddenSegment_def HasPrefix_def)

text \<open>
  C9 as stated fails for a hidden symlink: with \<open>skipHidden\<close>, the link \<open>.link\<close> of
  \<open>dotlinks\<close> is skipped without error and the file after it is written.
\<close>

theorem zipRPC_hidden_symlink_skipped:
  "zipRPC srvData treeFS ''/dotlinks'' =
     ([\<lparr>entName = ''a.txt'', entMethod = Store, entData = ''hello''\<rparr>], None)"
  by (simp add: zip_defs fixture_defs path_defs)

text \<open>
  C9, amended. When the walk reaches a symlink, anywhere in the subtree, whose relative
  path is not skipped as hidden (\<open>skipHidden\<close> is off, or the relative path does not
  start with a dot), the download ends with the symlink error, and the archive holds the
  entries written before the symlink and nothing more.
\<close>

theorem zipRPC_symlink_aborts:
  assumes "enforcePath cfg env zipPath = Inr zipFullPath"
    and "Lstat env zipFullPath = Inr f"
    and "visits [] f = before @ (names, Symlink) # after"
    and "callAll (zipFn cfg) before [] = (w, None)"
    and "\<not> (skipHidden cfg \<and> HasPrefix (Rel names) ''.'')"
  shows "zipRPC cfg env zipPath = (w, Some SymlinkInZip)"
  using assms by (auto simp: zipRPC_def walk_callAll callAll_append)

text \<open>
  C9, amended, on \<open>links\<close>: the file before the link is written, the file after it is not.
\<close>

theorem zipRPC_symlink_aborts_witness:
  "zipRPC srvData treeFS ''/links'' =
     ([\<lparr>entName = ''a.txt'', entMethod = Store, entData = ''hello''\<rparr>], Some SymlinkInZip)"
proof -
  have 1: "enforcePath srvData treeFS ''/links'' = Inr ''/srv/data/links''"
    by (simp add: fixture_defs path_defs)
  have 2: "Lstat treeFS ''/srv/data/links'' = Inr linkTree"
    by (simp add: fixture_defs)
  have 3: "visits [] linkTree =
      [([], linkTree), ([''a.txt''], File ''hello'')] @ ([''link''], Symlink)
        # [([''z.txt''], File ''bye'')]"
    by (simp add: linkTree_def)
  have 4: "callAll (zipFn srvData) [([], linkTree), ([''a.txt''], File ''hello'')] []
      = ([\<lparr>entName = ''a.txt'', entMethod = Store, entData = ''hello''\<rparr>], None)"
    by (simp add: zip_defs srvData_def HasPrefix_def)
  have 5: "\<not> (skipHidden srvData \<and> HasPrefix (Rel [''link'']) ''.'')"
    by (simp add: Rel_def HasPrefix_def)
  show ?thesis
    using zipRPC_symlink_aborts [OF 1 2 3 4 5] .
qed

section \<open>C10: the extension of a file row\<close>

lemma Split_no_sep: "sep \<notin> set s \<Longrightarrow> Split s sep = [s]"
  by (induction s) auto

lemma Split_append_sep: "Split (a @ sep # b) sep = Split a sep @ Split b sep"
  using Split_not_Nil by (induction a) (auto split: list.splits)

lemma last_Split_after: "sep \<notin> set b \<Longrightarrow> last (Split (a @ sep # b) sep) = b"
  by (simp add: Split_append_sep Split_no_sep)

lemma addRow_ext:
  assumes "\<forall>r \<in> set (RowsFiles p). Ext r = ToLower (last (Split (Name r) (CHR ''.'')))"
  shows "\<forall>r \<in> set (RowsFiles (addRow humanize PathEscape cfg p el)).
           Ext r = ToLower (last (Split (Name r) (CHR ''.'')))"
  using assms by (auto simp: addRow_def Let_def split: sum.splits prod.splits)

lemma foldl_addRow_ext:
  assumes "\<forall>r \<in> set (RowsFiles p). Ext r = ToLower (last (Split (Name r) (CHR ''.'')))"
  shows "\<forall>r \<in> set (RowsFiles (foldl (addRow humanize PathEscape cfg) p files)).
           Ext r = ToLower (last (Split (Name r) (CHR ''.'')))"
  using assms
proof (induction files arbitrary: p)
  case Nil
  then show ?case by simp
next
  case (Cons el files)
  show ?case
    unfolding foldl_Cons
    by (rule Cons.IH) (rule addRow_ext [OF Cons.prems])
qed

lemma replyList_ext_last:
  assumes "r \<in> set (RowsFiles (replyList humanize PathEscape cfg path files))"
  shows "Ext r = ToLower (last (Split (Name r) (CHR ''.'')))"
proof -
  have "\<forall>r \<in> set (RowsFiles (replyList humanize PathEscape cfg path files)).
          Ext r = ToLower (last (Split (Name r) (CHR ''.'')))"
    unfolding replyList_def Let_def by (rule foldl_addRow_ext) simp
  with assms show ?thesis by blast
qed

lemma listing_rows:
  "RowsFiles (replyList noSize noEscape srvData ''/'' listing) =
     [\<lparr>Name = ''backup.TAR.GZ'', Href = ''backup.TAR.GZ'', Size = [], Ext = ''gz''\<rparr>,
      \<lparr>Name = ''Makefile'', Href = ''Makefile'', Size = [], Ext = ''makefile''\<rparr>]"
  by (simp add: replyList_def addRow_def Let_def HasSuffix_def HasPrefix_def srvData_def noEscape_def
      noSize_def listing_def ToLower_def lowerByte_def)

text \<open>
  C10 as stated fails in its second half: the row of \<open>Makefile\<close>, a name without a dot,
  has the extension \<open>makefile\<close>, not the empty string.
\<close>

theorem replyList_ext_no_dot:
  "CHR ''.'' \<notin> set ''Makefile''
   \<and> map Ext (RowsFiles (replyList noSize noEscape srvData ''/''
        [\<lparr>fiName = ''Makefile'', fiSymlink = False, fiStat = Inr (False, 120)\<rparr>])) = [''makefile'']"
  by (simp add: replyList_def addRow_def Let_def HasSuffix_def HasPrefix_def srvData_def noEscape_def
      ToLower_def lowerByte_def)

text \<open>
  C10, amended. For every file row of the listing, the extension is the lower-cased
  text after the last dot of the name when the name has a dot, and the lower-cased whole
  name when it has none.
\<close>

theorem replyList_ext:
  assumes "r \<in> set (RowsFiles (replyList humanize PathEscape cfg path files))"
  shows "(CHR ''.'' \<in> set (Name r) \<longrightarrow>
            (\<exists>a b. Name r = a @ ''.'' @ b \<and> CHR ''.'' \<notin> set b \<and> Ext r = ToLower b))
       \<and> (CHR ''.'' \<notin> set (Name r) \<longrightarrow> Ext r = ToLower (Name r))"
proof (intro conjI impI)
  assume "CHR ''.'' \<in> set (Name r)"
  then obtain a b where ab: "Name r = a @ CHR ''.'' # b" "CHR ''.'' \<notin> set b"
    by (auto dest: split_list_last)
  then have "Ext r = ToLower b"
    using replyList_ext_last [OF assms] by (simp add: last_Split_after)
  with ab show "\<exists>a b. Name r = a @ ''.'' @ b \<and> CHR ''.'' \<notin> set b \<and> Ext r = ToLower b"
    by auto
next
  assume "CHR ''.'' \<notin> set (Name r)"
  then show "Ext r = ToLower (Name r)"
    using replyList_ext_last [OF assms] by (simp add: Split_no_sep)
qed

text \<open>
  C10, amended, on the two file rows of a listing: \<open>backup.TAR.GZ\<close> and \<open>Makefile\<close>.
\<close>

theorem replyList_ext_witness:
  "(\<exists>a b. ''backup.TAR.GZ'' = a @ ''.'' @ b \<and> CHR ''.'' \<notin> set b
       \<and> Ext \<lparr>Name = ''backup.TAR.GZ'', Href = ''backup.TAR.GZ'', Size = [], Ext = ''gz''\<rparr>
           = ToLower b)
   \<and> Ext \<lparr>Name = ''Makefile'', Href = ''Makefile'', Size = [], Ext = ''makefile''\<rparr>
       = ToLower ''Makefile''"
  using replyList_ext [of "\<lparr>Name = ''backup.TAR.GZ'', Href = ''backup.TAR.GZ'', Size = [], Ext = ''gz''\<rparr>"
      noSize noEscape srvData "''/''" listing]
    replyList_ext [of "\<lparr>Name = ''Makefile'', Href = ''Makefile'', Size = [], Ext = ''makefile''\<rparr>"
      noSize noEscape srvData "''/''" listing]
  by (simp add: listing_rows)

end
